theory Spec2Isabelle
  imports Complex_Main
begin

section \<open>The media-verification workflow of the Upload component\<close>

text \<open>
  The repository holds two copies of the React component \<open>Upload\<close>: the canonical one
  (\<open>web-client/src/upload/Upload.jsx\<close>), which asks the service for Grad-CAM frames and
  lets the user page through them, and an older duplicate without them.  Both keep their
  workflow in \<open>useState\<close> cells and change them from event handlers.  The embedding
  turns the cells into a record and each handler into a function from the record to the
  updated record, returned together with the effect the handler starts (a file read, a
  network request).

  The asynchronous handler \<open>handleSubmit\<close> is cut at its suspension: the part that
  runs when the form is submitted (\<open>handleSubmit\<close>) and the part that runs when the
  request has settled (\<open>handleSubmit_settled\<close>).  Everything after the last
  \<open>await\<close> runs without interruption, so the second part is one atomic update of the
  cells as they are at that moment.

  An HTTP body either fails to parse, or parses to \<open>null\<close>, or parses to a
  value that is read at the shape the service's contract gives it: the optional
  \<open>detail\<close> string of an error (non-success status), the fields of a result (success
  status).  Numbers are the exact rational values of the doubles.  The development follows one mounted component: leaving the page through
  \<open>onBack\<close> unmounts it and is not part of it.
\<close>

subsection \<open>Data\<close>

record media_file =
  file_name :: string
  file_type :: string
  file_size :: nat
  file_bytes :: "nat list"

record gradcam_frame =
  image :: string
  frame_number :: int
  score :: rat
  detection_frame :: bool

record analysis_result =
  prediction :: string
  confidence :: rat
  filename :: string
  gradcam_frames :: "gradcam_frame list option"

text \<open>
  The cells of the duplicate component, in the order of its \<open>useState\<close> calls; the
  canonical component has one more, \<open>selectedVisualization\<close>.  \<open>None\<close> is
  JavaScript's \<open>null\<close>.
\<close>

record upload_cells =
  file' :: "media_file option"
  preview :: "nat list option"
  loading :: bool
  result :: "analysis_result option"
  error :: "string option"
  dragActive :: bool

record upload_state = upload_cells +
  selectedVisualization :: nat

definition initial_state :: upload_state where
  "initial_state =
     \<lparr>file' = None, preview = None, loading = False, result = None, error = None,
      dragActive = False, selectedVisualization = 0\<rparr>"

text \<open>\<open>String.prototype.startsWith\<close>.\<close>

definition startsWith :: "string \<Rightarrow> string \<Rightarrow> bool" where
  "startsWith s p = (take (length p) s = p)"

text \<open>
  \<open>API_URL = import.meta.env.VITE_API_URL || 'http://localhost:8000'\<close>: the variable
  may be missing, and an empty string is falsy.
\<close>

definition API_URL :: "string option \<Rightarrow> string" where
  "API_URL env =
     (case env of
        None \<Rightarrow> ''http://localhost:8000''
      | Some u \<Rightarrow> if u = [] then ''http://localhost:8000'' else u)"

record request =
  url :: string
  http_method :: string
  form_data :: "(string \<times> media_file) list"

text \<open>
  How a request settles.  \<open>fetch\<close> rejects (the message of the rejection is the
  browser's), or it resolves with a response whose \<open>ok\<close> flag is false or true;
  \<open>response.json()\<close> then rejects with a \<open>SyntaxError\<close> (whose message is the
  browser's) or yields the parsed body.  The parsed body can be \<open>null\<close>: reading a
  property of it throws a \<open>TypeError\<close>, and \<open>Null\<close> carries the message the
  browser gives that error.  Any other parsed body is read through its properties: for a
  non-success status its \<open>detail\<close> (\<open>None\<close> when it has none, as a body that is
  no object at all), for a success status the fields of the result.
\<close>

datatype 'a json_body = Unparseable string | Null string | Parsed 'a

datatype fetch_outcome =
    Rejected string
  | NotOk "string option json_body"
  | Ok "analysis_result json_body"

subsection \<open>The handlers of the canonical component\<close>

text \<open>
  \<open>handleFileSelect(selectedFile)\<close>; \<open>None\<close> is the \<open>undefined\<close> that the
  picker passes when its file list is empty.  The second component is the file whose
  read the handler starts.
\<close>

definition handleFileSelect ::
  "media_file option \<Rightarrow> upload_state \<Rightarrow> upload_state \<times> media_file option" where
  "handleFileSelect selectedFile s =
     (case selectedFile of
        Some f \<Rightarrow>
          if startsWith (file_type f) ''video/''
          then (s\<lparr>file' := Some f, error := None, result := None\<rparr>, Some f)
          else (s\<lparr>error := Some ''Please select a valid video file''\<rparr>, None)
      | None \<Rightarrow> (s\<lparr>error := Some ''Please select a valid video file''\<rparr>, None))"

text \<open>\<open>reader.onload\<close>: the read started by \<open>handleFileSelect\<close> has finished.\<close>

definition reader_onload :: "nat list \<Rightarrow> upload_state \<Rightarrow> upload_state" where
  "reader_onload buf s = s\<lparr>preview := Some buf\<rparr>"

datatype drag_type = dragenter | dragover | dragleave

definition handleDrag :: "drag_type \<Rightarrow> upload_state \<Rightarrow> upload_state" where
  "handleDrag t s =
     (if t = dragenter \<or> t = dragover then s\<lparr>dragActive := True\<rparr>
      else if t = dragleave then s\<lparr>dragActive := False\<rparr>
      else s)"

text \<open>\<open>handleDrop\<close>, given \<open>e.dataTransfer.files\<close>.\<close>

definition handleDrop ::
  "media_file list \<Rightarrow> upload_state \<Rightarrow> upload_state \<times> media_file option" where
  "handleDrop files s =
     (case files of
        [] \<Rightarrow> (s\<lparr>dragActive := False\<rparr>, None)
      | f # _ \<Rightarrow> handleFileSelect (Some f) (s\<lparr>dragActive := False\<rparr>))"

text \<open>
  \<open>handleSubmit\<close> up to its first \<open>await\<close>: the guard on the file, the two cell
  updates and the request handed to \<open>fetch\<close>.
\<close>

definition handleSubmit ::
  "string option \<Rightarrow> upload_state \<Rightarrow> upload_state \<times> request option" where
  "handleSubmit env s =
     (case file' s of
        None \<Rightarrow> (s, None)
      | Some f \<Rightarrow>
          (s\<lparr>loading := True, error := None\<rparr>,
           Some \<lparr>url = API_URL env @ ''/predict-video?include_gradcam=true'',
                 http_method = ''POST'',
                 form_data = [(''file'', f)]\<rparr>))"

text \<open>
  The \<open>catch\<close> clause of \<open>handleSubmit\<close>, for an error with the message \<open>m\<close>,
  followed by its \<open>finally\<close> clause: \<open>setError(err.message || '...')\<close> and
  \<open>setLoading(false)\<close>.
\<close>

definition handleSubmit_caught :: "string \<Rightarrow> upload_state \<Rightarrow> upload_state" where
  "handleSubmit_caught m s =
     s\<lparr>error := Some (if m = []
                       then ''Error analyzing video. Make sure the backend is running.''
                       else m),
       loading := False\<rparr>"

text \<open>
  \<open>handleSubmit\<close> from the settled request to its end.  What is thrown before
  \<open>setResult\<close>: the rejection of \<open>fetch\<close> or of \<open>response.json()\<close>; for a
  non-success status the \<open>TypeError\<close> of \<open>errorData.detail\<close> on a \<open>null\<close> body,
  or else the \<open>Error\<close> built from \<open>errorData.detail || 'Analysis failed'\<close> (a
  missing detail and an empty one are both falsy).  On success \<open>setResult(data)\<close>
  comes first; then \<open>data.gradcam_frames\<close> throws a \<open>TypeError\<close> when \<open>data\<close> is
  \<open>null\<close>, or else \<open>setSelectedVisualization(0)\<close> is called when there are frames,
  and \<open>setLoading(false)\<close> in \<open>finally\<close>.
\<close>

definition handleSubmit_settled :: "fetch_outcome \<Rightarrow> upload_state \<Rightarrow> upload_state" where
  "handleSubmit_settled out s =
     (case out of
        Rejected m \<Rightarrow> handleSubmit_caught m s
      | NotOk (Unparseable m) \<Rightarrow> handleSubmit_caught m s
      | NotOk (Null m) \<Rightarrow> handleSubmit_caught m s
      | NotOk (Parsed None) \<Rightarrow> handleSubmit_caught ''Analysis failed'' s
      | NotOk (Parsed (Some d)) \<Rightarrow>
          handleSubmit_caught (if d = [] then ''Analysis failed'' else d) s
      | Ok (Unparseable m) \<Rightarrow> handleSubmit_caught m s
      | Ok (Null m) \<Rightarrow> handleSubmit_caught m (s\<lparr>result := None\<rparr>)
      | Ok (Parsed data) \<Rightarrow>
          (let s1 = s\<lparr>result := Some data\<rparr>;
               s2 = (case gradcam_frames data of
                       Some fs \<Rightarrow> if length fs > 0 then s1\<lparr>selectedVisualization := 0\<rparr> else s1
                     | None \<Rightarrow> s1)
           in s2\<lparr>loading := False\<rparr>))"

text \<open>The \<open>onClick\<close> of the remove-file button of the file card.\<close>

definition remove_file :: "upload_state \<Rightarrow> upload_state" where
  "remove_file s = s\<lparr>file' := None, preview := None, result := None\<rparr>"

text \<open>The \<open>onClick\<close> of the button "Analyze Another" of the results view.\<close>

definition analyze_another :: "upload_state \<Rightarrow> upload_state" where
  "analyze_another s =
     s\<lparr>file' := None, preview := None, result := None, error := None,
       selectedVisualization := 0\<rparr>"

text \<open>The \<open>onClick\<close> of the thumbnail with index \<open>idx\<close>.\<close>

definition select_thumbnail :: "nat \<Rightarrow> upload_state \<Rightarrow> upload_state" where
  "select_thumbnail idx s = s\<lparr>selectedVisualization := idx\<rparr>"

subsection \<open>What is rendered, and the events it admits\<close>

text \<open>
  The component renders the form while \<open>!result\<close> and the results view otherwise.
  The remove-file button is part of the form and rendered while \<open>file\<close> is set; the
  submit button is \<open>disabled={!file || loading}\<close>; the thumbnails are rendered, one for
  each frame, when the result has more than one frame.
\<close>

definition form_shown :: "upload_state \<Rightarrow> bool" where
  "form_shown s = (result s = None)"

definition remove_shown :: "upload_state \<Rightarrow> bool" where
  "remove_shown s = (form_shown s \<and> file' s \<noteq> None)"

definition submit_disabled :: "upload_state \<Rightarrow> bool" where
  "submit_disabled s = (file' s = None \<or> loading s)"

definition frames :: "upload_state \<Rightarrow> gradcam_frame list" where
  "frames s =
     (case result s of
        None \<Rightarrow> []
      | Some r \<Rightarrow> (case gradcam_frames r of None \<Rightarrow> [] | Some fs \<Rightarrow> fs))"

definition thumbnails :: "upload_state \<Rightarrow> nat list" where
  "thumbnails s =
     (if \<not> form_shown s \<and> length (frames s) > 0 \<and> length (frames s) > 1
      then [0..<length (frames s)] else [])"

text \<open>
  One mounted component together with the requests it has issued that have not settled
  yet.  An event that the rendered page does not admit (a click on a button that is not
  rendered or is disabled, a settlement with no request outstanding) changes nothing.
\<close>

datatype event =
    PickFile "media_file option"
  | Drag drag_type
  | Drop "media_file list"
  | ReaderLoaded "nat list"
  | RemoveFile
  | Submit
  | Settled fetch_outcome
  | SelectThumbnail nat
  | AnalyzeAnother

record config =
  cells :: upload_state
  in_flight :: "request list"

definition initial_config :: config where
  "initial_config = \<lparr>cells = initial_state, in_flight = []\<rparr>"

definition react :: "string option \<Rightarrow> event \<Rightarrow> config \<Rightarrow> config" where
  "react env e c =
     (let s = cells c in
      case e of
        PickFile selectedFile \<Rightarrow>
          if form_shown s then c\<lparr>cells := fst (handleFileSelect selectedFile s)\<rparr> else c
      | Drag t \<Rightarrow>
          if form_shown s then c\<lparr>cells := handleDrag t s\<rparr> else c
      | Drop files \<Rightarrow>
          if form_shown s then c\<lparr>cells := fst (handleDrop files s)\<rparr> else c
      | ReaderLoaded buf \<Rightarrow> c\<lparr>cells := reader_onload buf s\<rparr>
      | RemoveFile \<Rightarrow>
          if remove_shown s then c\<lparr>cells := remove_file s\<rparr> else c
      | Submit \<Rightarrow>
          if form_shown s \<and> \<not> submit_disabled s
          then (case handleSubmit env s of
                  (s', Some r) \<Rightarrow> \<lparr>cells = s', in_flight = in_flight c @ [r]\<rparr>
                | (s', None) \<Rightarrow> c\<lparr>cells := s'\<rparr>)
          else c
      | Settled out \<Rightarrow>
          (case in_flight c of
             [] \<Rightarrow> c
           | r # rs \<Rightarrow> \<lparr>cells = handleSubmit_settled out s, in_flight = rs\<rparr>)
      | SelectThumbnail idx \<Rightarrow>
          if idx \<in> set (thumbnails s) then c\<lparr>cells := select_thumbnail idx s\<rparr> else c
      | AnalyzeAnother \<Rightarrow>
          if \<not> form_shown s then c\<lparr>cells := analyze_another s\<rparr> else c)"

definition run :: "string option \<Rightarrow> event list \<Rightarrow> config" where
  "run env es = foldl (\<lambda>c e. react env e c) initial_config es"

subsection \<open>The handlers of the duplicate component\<close>

text \<open>
  The duplicate has no \<open>selectedVisualization\<close> cell, asks for
  \<open>/predict-video\<close> without the query flag, and sets no selection when the result
  arrives.  Everything else is written as in the canonical component.
\<close>

definition handleFileSelect_dup ::
  "media_file option \<Rightarrow> upload_cells \<Rightarrow> upload_cells \<times> media_file option" where
  "handleFileSelect_dup selectedFile s =
     (case selectedFile of
        Some f \<Rightarrow>
          if startsWith (file_type f) ''video/''
          then (s\<lparr>file' := Some f, error := None, result := None\<rparr>, Some f)
          else (s\<lparr>error := Some ''Please select a valid video file''\<rparr>, None)
      | None \<Rightarrow> (s\<lparr>error := Some ''Please select a valid video file''\<rparr>, None))"

definition handleDrop_dup ::
  "media_file list \<Rightarrow> upload_cells \<Rightarrow> upload_cells \<times> media_file option" where
  "handleDrop_dup files s =
     (case files of
        [] \<Rightarrow> (s\<lparr>dragActive := False\<rparr>, None)
      | f # _ \<Rightarrow> handleFileSelect_dup (Some f) (s\<lparr>dragActive := False\<rparr>))"

definition handleSubmit_dup ::
  "string option \<Rightarrow> upload_cells \<Rightarrow> upload_cells \<times> request option" where
  "handleSubmit_dup env s =
     (case file' s of
        None \<Rightarrow> (s, None)
      | Some f \<Rightarrow>
          (s\<lparr>loading := True, error := None\<rparr>,
           Some \<lparr>url = API_URL env @ ''/predict-video'',
                 http_method = ''POST'',
                 form_data = [(''file'', f)]\<rparr>))"

definition handleSubmit_caught_dup :: "string \<Rightarrow> upload_cells \<Rightarrow> upload_cells" where
  "handleSubmit_caught_dup m s =
     s\<lparr>error := Some (if m = []
                       then ''Error analyzing video. Make sure the backend is running.''
                       else m),
       loading := False\<rparr>"

text \<open>
  After \<open>setResult(data)\<close> the duplicate reads nothing of \<open>data\<close>: a \<open>null\<close>
  body of a success response throws nothing.
\<close>

definition handleSubmit_settled_dup :: "fetch_outcome \<Rightarrow> upload_cells \<Rightarrow> upload_cells" where
  "handleSubmit_settled_dup out s =
     (case out of
        Rejected m \<Rightarrow> handleSubmit_caught_dup m s
      | NotOk (Unparseable m) \<Rightarrow> handleSubmit_caught_dup m s
      | NotOk (Null m) \<Rightarrow> handleSubmit_caught_dup m s
      | NotOk (Parsed None) \<Rightarrow> handleSubmit_caught_dup ''Analysis failed'' s
      | NotOk (Parsed (Some d)) \<Rightarrow>
          handleSubmit_caught_dup (if d = [] then ''Analysis failed'' else d) s
      | Ok (Unparseable m) \<Rightarrow> handleSubmit_caught_dup m s
      | Ok (Null m) \<Rightarrow> s\<lparr>result := None, loading := False\<rparr>
      | Ok (Parsed data) \<Rightarrow> s\<lparr>result := Some data, loading := False\<rparr>)"

subsection \<open>Presentation of a result\<close>

definition getResultColor :: "string \<Rightarrow> string" where
  "getResultColor p =
     (if p = ''REAL'' then ''from-green-400 to-emerald-400''
      else if p = ''FAKE'' then ''from-red-400 to-rose-400''
      else if p = ''SUSPICIOUS'' then ''from-yellow-400 to-orange-400''
      else ''from-cyan-400 to-purple-400'')"

definition getResultBg :: "string \<Rightarrow> string" where
  "getResultBg p =
     (if p = ''REAL'' then ''bg-green-500/10 border-green-500/30''
      else if p = ''FAKE'' then ''bg-red-500/10 border-red-500/30''
      else if p = ''SUSPICIOUS'' then ''bg-yellow-500/10 border-yellow-500/30''
      else ''bg-white/5 border-white/10'')"

text \<open>
  The text of the headline: three expressions \<open>cond && 'text'\<close> side by side, each
  rendering its text or nothing.  The first two texts begin with a character outside
  ASCII (U+2713 and U+26A0), given here by its UTF-8 bytes.
\<close>

definition headline :: "string \<Rightarrow> string" where
  "headline p =
     (if p = ''REAL''
      then [CHR 0xE2, CHR 0x9C, CHR 0x93] @ '' Content Verified'' else [])
     @ (if p = ''FAKE''
        then [CHR 0xE2, CHR 0x9A, CHR 0xA0] @ '' Deepfake Detected'' else [])
     @ (if p = ''SUSPICIOUS'' then ''? Suspicious Content'' else [])"

subsection \<open>Numbers\<close>

text \<open>
  A JavaScript number is a binary64 floating-point value; a finite one is a rational.
  \<open>ilog2 a\<close> is the binary exponent of a positive rational: the \<open>e\<close> with
  \<open>2\<^sup>e \<le> a < 2\<^sup>e\<^sup>+\<^sup>1\<close>.
\<close>

function ilog2 :: "rat \<Rightarrow> int" where
  "ilog2 a =
     (if a \<le> 0 then 0
      else if 2 \<le> a then ilog2 (a / 2) + 1
      else if a < 1 then ilog2 (a * 2) - 1
      else 0)"
  by pat_completeness auto
termination
proof (relation "measure (\<lambda>a. 2 * nat \<lceil>1 / a\<rceil> + nat \<lceil>a\<rceil>)")
  show "wf (measure (\<lambda>a::rat. 2 * nat \<lceil>1 / a\<rceil> + nat \<lceil>a\<rceil>))"
    by simp
next
  fix a :: rat
  assume a: "\<not> a \<le> 0" "2 \<le> a"
  have "\<lceil>1 / (a / 2)\<rceil> = 1" "\<lceil>1 / a\<rceil> = 1"
    using a by (simp_all add: ceiling_eq_iff field_simps)
  then have one: "nat \<lceil>1 / (a / 2)\<rceil> = 1" "nat \<lceil>1 / a\<rceil> = 1"
    by simp_all
  have "a / 2 \<le> a - 1" using a by simp
  then have "\<lceil>a / 2\<rceil> \<le> \<lceil>a - 1\<rceil>" by (rule ceiling_mono)
  moreover have "0 < \<lceil>a\<rceil>" using a by simp
  ultimately have "nat \<lceil>a / 2\<rceil> < nat \<lceil>a\<rceil>" by linarith
  with one show "(a / 2, a) \<in> measure (\<lambda>a. 2 * nat \<lceil>1 / a\<rceil> + nat \<lceil>a\<rceil>)"
    unfolding in_measure by linarith
next
  fix a :: rat
  assume a: "\<not> a \<le> 0" "\<not> 2 \<le> a" "a < 1"
  have "\<lceil>a\<rceil> = 1" using a by (simp add: ceiling_eq_iff)
  then have ca: "nat \<lceil>a\<rceil> = 1" by simp
  have "\<lceil>a * 2\<rceil> \<le> 2" using a by (simp add: ceiling_le_iff)
  then have c2: "nat \<lceil>a * 2\<rceil> \<le> 2" by arith
  have pos: "0 < \<lceil>1 / (a * 2)\<rceil>" using a by simp
  show "(a * 2, a) \<in> measure (\<lambda>a. 2 * nat \<lceil>1 / a\<rceil> + nat \<lceil>a\<rceil>)"
  proof (cases "a \<le> 1 / 2")
    case True
    then have "1 / (a * 2) \<le> 1 / a - 1" using a by (simp add: field_simps)
    then have "\<lceil>1 / (a * 2)\<rceil> \<le> \<lceil>1 / a - 1\<rceil>" by (rule ceiling_mono)
    with pos have "nat \<lceil>1 / (a * 2)\<rceil> < nat \<lceil>1 / a\<rceil>" by linarith
    moreover have "\<lceil>a * 2\<rceil> \<le> 1" using True a by (simp add: ceiling_le_iff)
    then have "nat \<lceil>a * 2\<rceil> \<le> 1" by arith
    ultimately show ?thesis using ca unfolding in_measure by linarith
  next
    case False
    then have "\<lceil>1 / (a * 2)\<rceil> = 1" "1 < \<lceil>1 / a\<rceil>"
      using a by (simp_all add: ceiling_eq_iff less_ceiling_iff field_simps)
    then have "nat \<lceil>1 / (a * 2)\<rceil> = 1" "2 \<le> nat \<lceil>1 / a\<rceil>" by linarith+
    then show ?thesis using ca c2 unfolding in_measure by linarith
  qed
qed

declare ilog2.simps [simp del]

definition round_half_even :: "rat \<Rightarrow> int" where
  "round_half_even x =
     (let f = \<lfloor>x\<rfloor>; r = x - of_int f
      in if r < 1 / 2 then f
         else if 1 / 2 < r then f + 1
         else if even f then f else f + 1)"

text \<open>
  The binary64 value nearest to a rational, ties to the even significand: 53 bits of
  significand, the least exponent \<open>-1022\<close> (below it the spacing stays \<open>2\<^sup>-\<^sup>1\<^sup>0\<^sup>7\<^sup>4\<close>).
  A rational beyond the range of binary64 has no such value.
\<close>

definition round_to_double :: "rat \<Rightarrow> rat option" where
  "round_to_double x =
     (if x = 0 then Some 0
      else
        (let a = \<bar>x\<bar>;
             q = max (ilog2 a) (- 1022) - 52;
             m = round_half_even (a / 2 powi q);
             r = of_int m * 2 powi q
         in if 2 ^ 1024 \<le> r then None else Some (sgn x * r)))"

text \<open>The product of two finite numbers: \<open>None\<close> is an infinity.\<close>

definition fmul :: "rat \<Rightarrow> rat \<Rightarrow> rat option" where
  "fmul x y = round_to_double (x * y)"

definition digit_char :: "nat \<Rightarrow> char" where
  "digit_char d = ''0123456789'' ! d"

fun digits :: "nat \<Rightarrow> string" where
  "digits n = (if n < 10 then [digit_char n] else digits (n div 10) @ [digit_char (n mod 10)])"

declare digits.simps [simp del]

text \<open>
  \<open>Number.prototype.toFixed(f)\<close> on a finite number below \<open>10\<^sup>2\<^sup>1\<close> in magnitude:
  the integer \<open>n\<close> for which \<open>n / 10\<^sup>f\<close> is nearest to the number (the larger one of
  two), its decimal digits padded with zeros to \<open>f + 1\<close> places, and the point before
  the last \<open>f\<close> of them.  From \<open>10\<^sup>2\<^sup>1\<close> on the method prints the number in
  the exponent form of \<open>Number::toString\<close>, which is not described here: \<open>None\<close>.
\<close>

definition toFixed :: "nat \<Rightarrow> rat \<Rightarrow> string option" where
  "toFixed f x =
     (if 10 ^ 21 \<le> \<bar>x\<bar> then None
      else
        (let n = nat \<lfloor>\<bar>x\<bar> * 10 ^ f + 1 / 2\<rfloor>;
             m = digits n;
             m' = (if length m \<le> f then replicate (f + 1 - length m) (CHR ''0'') @ m else m);
             k = length m'
         in Some ((if x < 0 then ''-'' else [])
                  @ (if f \<noteq> 0 then take (k - f) m' @ ''.'' @ drop (k - f) m' else m'))))"

text \<open>
  \<open>{(result.confidence * 100).toFixed(1)}%\<close>.  \<open>None\<close> where the product is
  infinite or at least \<open>10\<^sup>2\<^sup>1\<close>.
\<close>

definition confidence_text :: "rat \<Rightarrow> string option" where
  "confidence_text c =
     (case fmul c 100 of
        None \<Rightarrow> None
      | Some p \<Rightarrow> (case toFixed 1 p of None \<Rightarrow> None | Some t \<Rightarrow> Some (t @ ''%'')))"

text \<open>
  What the arithmetic above is measured against.  The finite binary64 values are the
  integers of less than 53 bits scaled by a power of two between \<open>2\<^sup>-\<^sup>1\<^sup>0\<^sup>7\<^sup>4\<close> and
  \<open>2\<^sup>9\<^sup>7\<^sup>1\<close>.  Rounding to nearest, ties to even, gives a value that no binary64 value
  is nearer than; when another one is as near, the two are neighbours and the value
  given is the even multiple of their distance.
\<close>

definition binary64 :: "rat \<Rightarrow> bool" where
  "binary64 d = (\<exists>m q. \<bar>m\<bar> < 2 ^ 53 \<and> - 1074 \<le> q \<and> q \<le> 971 \<and> d = of_int m * 2 powi q)"

definition nearest_binary64 :: "rat \<Rightarrow> rat \<Rightarrow> bool" where
  "nearest_binary64 x p =
     (binary64 p
      \<and> (\<forall>d. binary64 d \<longrightarrow>
             \<bar>p - x\<bar> \<le> \<bar>d - x\<bar>
             \<and> (\<bar>d - x\<bar> = \<bar>p - x\<bar> \<and> d \<noteq> p \<longrightarrow> (\<exists>k. p = of_int (2 * k) * (d - p)))))"

text \<open>
  A decimal numeral of a natural number: digits only, no leading zero but for the
  numeral \<open>0\<close> itself, and the number as its value.
\<close>

definition decimal_value :: "string \<Rightarrow> nat" where
  "decimal_value s = foldl (\<lambda>a ch. 10 * a + (of_char ch - 48)) 0 s"

definition decimal_numeral :: "string \<Rightarrow> nat \<Rightarrow> bool" where
  "decimal_numeral s k =
     (s \<noteq> [] \<and> set s \<subseteq> set ''0123456789'' \<and> (hd s = CHR ''0'' \<longrightarrow> s = ''0'')
      \<and> decimal_value s = k)"

subsection \<open>The states of the workflow, read off the cells\<close>

text \<open>
  The component has no variable that names the state of the workflow: the five states
  are configurations of the cells, told apart the way the page tells them apart.  The
  results view replaces the form as soon as a result is set (Resulted); otherwise the
  submit button spins while a request is in flight (Submitting); otherwise the error
  box is shown when an error is set (Failed); otherwise a file is held and can be
  submitted (Ready) or none is (Idle).
\<close>

datatype workflow_state = Idle | Ready | Submitting | Resulted | Failed

definition workflow :: "upload_state \<Rightarrow> workflow_state" where
  "workflow s =
     (if result s \<noteq> None then Resulted
      else if loading s then Submitting
      else if error s \<noteq> None then Failed
      else if file' s \<noteq> None then Ready
      else Idle)"

text \<open>The selected index is within the frames of the result, when it has any.\<close>

definition selection_in_range :: "upload_state \<Rightarrow> bool" where
  "selection_in_range s = (frames s = [] \<or> selectedVisualization s < length (frames s))"

text \<open>What holds of every configuration the component can reach.\<close>

definition consistent :: "config \<Rightarrow> bool" where
  "consistent c =
     (let s = cells c in
        length (in_flight c) = (if loading s then 1 else 0)
        \<and> (result s = None \<or> \<not> loading s)
        \<and> (if frames s = [] then selectedVisualization s = 0
           else selectedVisualization s < length (frames s)))"

text \<open>The frames that a settled request brings: none unless it brings a result with frames.\<close>

definition response_frames :: "fetch_outcome \<Rightarrow> gradcam_frame list" where
  "response_frames out =
     (case out of
        Ok (Parsed data) \<Rightarrow> (case gradcam_frames data of None \<Rightarrow> [] | Some fs \<Rightarrow> fs)
      | _ \<Rightarrow> [])"

subsection \<open>Sample inputs\<close>

definition clip :: media_file where
  "clip = \<lparr>file_name = ''a.mp4'', file_type = ''video/mp4'', file_size = 3,
           file_bytes = [0, 1, 2]\<rparr>"

definition other_clip :: media_file where
  "other_clip = \<lparr>file_name = ''b.webm'', file_type = ''video/webm'', file_size = 2,
                 file_bytes = [7, 7]\<rparr>"

definition picture :: media_file where
  "picture = \<lparr>file_name = ''a.png'', file_type = ''image/png'', file_size = 1,
              file_bytes = [9]\<rparr>"

definition plain_result :: analysis_result where
  "plain_result = \<lparr>prediction = ''FAKE'', confidence = 1 / 2, filename = ''a.mp4'',
                    gradcam_frames = None\<rparr>"

definition three_frames :: "gradcam_frame list" where
  "three_frames =
     [\<lparr>image = ''f0'', frame_number = 10, score = 1 / 4, detection_frame = False\<rparr>,
      \<lparr>image = ''f1'', frame_number = 25, score = 1 / 2, detection_frame = True\<rparr>,
      \<lparr>image = ''f2'', frame_number = 40, score = 3 / 4, detection_frame = False\<rparr>]"

definition framed_result :: analysis_result where
  "framed_result = \<lparr>prediction = ''FAKE'', confidence = 1 / 2, filename = ''a.mp4'',
                     gradcam_frames = Some three_frames\<rparr>"

section \<open>Properties\<close>

subsection \<open>Every reachable configuration is consistent\<close>

lemma frames_simps:
  "frames (s\<lparr>result := None\<rparr>) = []"
  "frames (s\<lparr>loading := b\<rparr>) = frames s"
  "frames (s\<lparr>error := e\<rparr>) = frames s"
  "frames (s\<lparr>file' := f\<rparr>) = frames s"
  "frames (s\<lparr>preview := p\<rparr>) = frames s"
  "frames (s\<lparr>dragActive := b\<rparr>) = frames s"
  "frames (s\<lparr>selectedVisualization := i\<rparr>) = frames s"
  by (simp_all add: frames_def)

lemma frames_no_result: "result s = None \<Longrightarrow> frames s = []"
  by (simp add: frames_def)

lemma consistent_initial: "consistent initial_config"
  by (simp add: consistent_def initial_config_def initial_state_def frames_def)

lemma consistent_react: "consistent c \<Longrightarrow> consistent (react env e c)"
proof (cases e)
  case (Settled out)
  assume c: "consistent c"
  show ?thesis
  proof (cases "in_flight c")
    case Nil
    with c Settled show ?thesis by (simp add: react_def)
  next
    case (Cons r rs)
    with c have l: "loading (cells c)" "rs = []" "result (cells c) = None"
      "selectedVisualization (cells c) = 0"
      by (auto simp: consistent_def Let_def frames_def split: if_splits)
    show ?thesis
      using Settled Cons l
      by (auto simp: react_def consistent_def handleSubmit_settled_def handleSubmit_caught_def
                     Let_def frames_def
               split: fetch_outcome.splits json_body.splits option.splits)
  qed
qed (auto simp: react_def consistent_def Let_def handleFileSelect_def handleDrag_def
       handleDrop_def reader_onload_def remove_file_def remove_shown_def form_shown_def
       submit_disabled_def handleSubmit_def thumbnails_def select_thumbnail_def
       analyze_another_def frames_simps frames_no_result
     split: option.splits list.splits if_splits)

lemma foldl_consistent:
  "consistent c \<Longrightarrow> consistent (foldl (\<lambda>c e. react env e c) c es)"
  by (induction es arbitrary: c) (simp_all add: consistent_react)

lemma run_consistent: "consistent (run env es)"
  unfolding run_def by (rule foldl_consistent) (rule consistent_initial)

lemma run_snoc: "run env (es @ [e]) = react env e (run env es)"
  by (simp add: run_def)

lemmas handler_defs =
  handleFileSelect_def handleDrag_def handleDrop_def reader_onload_def handleSubmit_def
  handleSubmit_caught_def handleSubmit_settled_def remove_file_def analyze_another_def
  select_thumbnail_def

lemmas view_defs =
  form_shown_def remove_shown_def submit_disabled_def frames_def thumbnails_def

lemmas sample_defs =
  clip_def other_clip_def picture_def plain_result_def three_frames_def framed_result_def

lemmas trace_defs =
  run_def react_def initial_config_def initial_state_def startsWith_def API_URL_def
  handler_defs view_defs sample_defs

text \<open>
  While a request is in flight there is exactly one, no result is set, and the selected
  index is 0.
\<close>

lemma in_flight_one:
  assumes "c = run env es" and "in_flight c \<noteq> []"
  obtains r where "in_flight c = [r]" and "result (cells c) = None" and "loading (cells c)"
    and "selectedVisualization (cells c) = 0"
proof -
  have "consistent c" using assms(1) by (simp add: run_consistent)
  with assms(2) show ?thesis
    by (cases "in_flight c")
       (auto simp: consistent_def Let_def frames_no_result split: if_splits intro: that)
qed

subsection \<open>Failure messages of a submission\<close>




subsection \<open>Responses that arrive late\<close>

text \<open>
  C2, as stated, asks that a response be dropped when the file was removed or replaced
  while the request was in flight.  The component applies it: the result of the removed
  file is set, the result of the first file is set while the second is held, and the
  error of the removed file's request is set.
\<close>

theorem stale_response_counterexample:
  "result (cells (run None [PickFile (Some clip), Submit, RemoveFile,
       Settled (Ok (Parsed plain_result))])) = Some plain_result
   \<and> file' (cells (run None [PickFile (Some clip), Submit, RemoveFile,
       Settled (Ok (Parsed plain_result))])) = None
   \<and> result (cells (run None [PickFile (Some clip), Submit, PickFile (Some other_clip),
       Settled (Ok (Parsed plain_result))])) = Some plain_result
   \<and> file' (cells (run None [PickFile (Some clip), Submit, PickFile (Some other_clip),
       Settled (Ok (Parsed plain_result))])) = Some other_clip
   \<and> error (cells (run None [PickFile (Some clip), Submit, RemoveFile,
       Settled (NotOk (Parsed (Some ''file too large'')))])) = Some ''file too large''"
  by (simp add: trace_defs)

text \<open>
  C2, amended.  The component has no guard against late responses: a response that
  settles in any reachable configuration with a request in flight, whatever was done to
  the file since the submission, is applied to the cells as they are then.  It leaves
  the file cell alone, clears \<open>loading\<close>, sets the result on success and the error
  on failure.
\<close>

theorem late_response_is_applied:
  assumes "c = run env es" and "in_flight c \<noteq> []"
  shows "cells (react env (Settled out) c) = handleSubmit_settled out (cells c)
         \<and> file' (handleSubmit_settled out (cells c)) = file' (cells c)
         \<and> loading (handleSubmit_settled out (cells c)) = False
         \<and> result (handleSubmit_settled (Ok (Parsed data)) (cells c)) = Some data
         \<and> error (handleSubmit_settled (NotOk (Parsed (Some (x # xs)))) (cells c))
             = Some (x # xs)"
proof -
  from assms obtain r where "in_flight c = [r]" by (rule in_flight_one)
  then show ?thesis
    by (auto simp: react_def handleSubmit_settled_def handleSubmit_caught_def Let_def
             split: option.splits fetch_outcome.splits json_body.splits)
qed

text \<open>The file is removed while its request is in flight; the result is set all the same.\<close>

theorem late_response_is_applied_witness:
  "file' (cells (run None [PickFile (Some clip), Submit, RemoveFile])) = None
   \<and> cells (run None [PickFile (Some clip), Submit, RemoveFile,
         Settled (Ok (Parsed plain_result))])
     = handleSubmit_settled (Ok (Parsed plain_result))
         (cells (run None [PickFile (Some clip), Submit, RemoveFile]))
   \<and> result (cells (run None [PickFile (Some clip), Submit, RemoveFile,
         Settled (Ok (Parsed plain_result))])) = Some plain_result"
proof -
  have 1: "run None [PickFile (Some clip), Submit, RemoveFile]
           = run None [PickFile (Some clip), Submit, RemoveFile]"
    by simp
  have 2: "in_flight (run None [PickFile (Some clip), Submit, RemoveFile]) \<noteq> []"
    by (simp add: trace_defs)
  show ?thesis
    using late_response_is_applied [OF 1 2, where out = "Ok (Parsed plain_result)"
        and data = plain_result]
    by (simp add: trace_defs)
qed

subsection \<open>Submitting\<close>

text \<open>
  C3, as stated, asks that submitting from Failed change nothing.  After a failed
  submission the file is still held and the submit button is live: submitting again
  issues a new request.
\<close>

theorem submit_from_failed_counterexample:
  "workflow (cells (run None [PickFile (Some clip), Submit,
       Settled (NotOk (Parsed (Some ''file too large'')))])) = Failed
   \<and> react None Submit (run None [PickFile (Some clip), Submit,
       Settled (NotOk (Parsed (Some ''file too large'')))])
     \<noteq> run None [PickFile (Some clip), Submit,
       Settled (NotOk (Parsed (Some ''file too large'')))]"
  by (simp add: trace_defs workflow_def)

text \<open>
  C3, amended.  Submitting changes nothing and issues no request when the workflow is
  Idle, Submitting or Resulted, and whenever no file is held.  When a file is held and
  the workflow is Ready or Failed, it sets \<open>loading\<close>, clears the error and issues one
  request for that file.  No reachable configuration has more than one request in
  flight.
\<close>

theorem submit_only_when_enabled:
  "(workflow (cells c) \<in> {Idle, Submitting, Resulted} \<or> file' (cells c) = None
      \<longrightarrow> react env Submit c = c)
   \<and> (workflow (cells c) \<in> {Ready, Failed} \<and> file' (cells c) = Some f
      \<longrightarrow> react env Submit c =
            \<lparr>cells = (cells c)\<lparr>loading := True, error := None\<rparr>,
             in_flight = in_flight c
               @ [\<lparr>url = API_URL env @ ''/predict-video?include_gradcam=true'',
                    http_method = ''POST'', form_data = [(''file'', f)]\<rparr>]\<rparr>)
   \<and> length (in_flight (run env es)) \<le> 1"
proof -
  have "consistent (run env es)" by (rule run_consistent)
  then have "length (in_flight (run env es)) \<le> 1"
    by (simp add: consistent_def Let_def split: if_splits)
  then show ?thesis
    by (auto simp: workflow_def react_def form_shown_def submit_disabled_def
                   handleSubmit_def split: if_splits)
qed

text \<open>
  Nothing happens from Idle and from Submitting; from Ready the request for the file is
  issued; a second submission during the first leaves one request in flight.
\<close>

theorem submit_only_when_enabled_witness:
  "workflow (cells initial_config) = Idle
   \<and> react None Submit initial_config = initial_config
   \<and> workflow (cells (run None [PickFile (Some clip), Submit])) = Submitting
   \<and> react None Submit (run None [PickFile (Some clip), Submit])
       = run None [PickFile (Some clip), Submit]
   \<and> workflow (cells (run None [PickFile (Some clip)])) = Ready
   \<and> in_flight (react None Submit (run None [PickFile (Some clip)]))
       = [\<lparr>url = ''http://localhost:8000/predict-video?include_gradcam=true'',
            http_method = ''POST'', form_data = [(''file'', clip)]\<rparr>]
   \<and> length (in_flight (run None [PickFile (Some clip), Submit, Submit])) \<le> 1"
  using submit_only_when_enabled [where c = initial_config and f = clip and env = None
      and es = "[PickFile (Some clip), Submit, Submit]"]
    submit_only_when_enabled [where c = "run None [PickFile (Some clip), Submit]"
      and f = clip and env = None and es = "[]"]
    submit_only_when_enabled [where c = "run None [PickFile (Some clip)]"
      and f = clip and env = None and es = "[]"]
  by (simp add: trace_defs workflow_def)

subsection \<open>Resetting\<close>

text \<open>
  The button "Analyze Another" clears the file, the preview, the result, the error and
  the selection.
\<close>

lemma analyze_another_clears:
  "file' (analyze_another s) = None \<and> preview (analyze_another s) = None
   \<and> result (analyze_another s) = None \<and> error (analyze_another s) = None
   \<and> selectedVisualization (analyze_another s) = 0
   \<and> loading (analyze_another s) = loading s
   \<and> dragActive (analyze_another s) = dragActive s"
  by (simp add: analyze_another_def)

text \<open>
  C4 asks that a reset from Failed clear the error as well.  The only reset the page
  offers in Failed is the remove-file button, and it sets the file, the preview and the
  result only: after a failed submission and a click on it, no file is held and the old
  error is still there (the workflow is still Failed, not Idle).
\<close>

theorem remove_file_after_failure_keeps_error:
  "workflow (cells (run None [PickFile (Some clip), Submit,
       Settled (NotOk (Parsed (Some ''file too large'')))])) = Failed
   \<and> file' (cells (run None [PickFile (Some clip), Submit,
       Settled (NotOk (Parsed (Some ''file too large''))), RemoveFile])) = None
   \<and> error (cells (run None [PickFile (Some clip), Submit,
       Settled (NotOk (Parsed (Some ''file too large''))), RemoveFile]))
     = Some ''file too large''"
  by (simp add: trace_defs workflow_def)

subsection \<open>The selected frame\<close>

lemma react_selection_in_range:
  "selection_in_range (cells c) \<Longrightarrow> selection_in_range (cells (react env e c))"
proof (cases e)
  case (Settled out)
  assume "selection_in_range (cells c)"
  then show ?thesis
    using Settled
    by (cases "in_flight c")
       (auto simp: react_def selection_in_range_def handleSubmit_settled_def
                   handleSubmit_caught_def Let_def frames_def
             split: fetch_outcome.splits json_body.splits option.splits)
qed (auto simp: react_def selection_in_range_def Let_def handleFileSelect_def handleDrag_def
       handleDrop_def reader_onload_def remove_file_def remove_shown_def form_shown_def
       submit_disabled_def handleSubmit_def thumbnails_def select_thumbnail_def
       analyze_another_def frames_simps frames_no_result
     split: option.splits list.splits if_splits)

text \<open>
  C5.  The selected index is within the frames of the current result whenever there are
  any: this holds initially, every event preserves it, and so it holds in every
  reachable configuration.  A result that arrives for the request in flight becomes the
  current result with the selected index 0.
\<close>

theorem selection_always_in_range:
  "selection_in_range (cells initial_config)
   \<and> (selection_in_range (cells c) \<longrightarrow> selection_in_range (cells (react env e c)))
   \<and> selection_in_range (cells (run env es))
   \<and> (in_flight (run env es) \<noteq> [] \<longrightarrow>
        result (cells (react env (Settled (Ok (Parsed data))) (run env es))) = Some data
        \<and> selectedVisualization (cells (react env (Settled (Ok (Parsed data))) (run env es)))
            = 0)"
proof -
  have a: "selection_in_range (cells initial_config)"
    by (simp add: selection_in_range_def initial_config_def initial_state_def frames_def)
  have b: "selection_in_range (cells (run env es))"
    using run_consistent [of env es]
    by (auto simp: consistent_def selection_in_range_def Let_def split: if_splits)
  have d: "result (cells (react env (Settled (Ok (Parsed data))) (run env es))) = Some data
        \<and> selectedVisualization (cells (react env (Settled (Ok (Parsed data))) (run env es)))
            = 0" if "in_flight (run env es) \<noteq> []"
  proof -
    from refl that obtain r where "in_flight (run env es) = [r]"
      and "selectedVisualization (cells (run env es)) = 0"
      by (rule in_flight_one)
    then show ?thesis
      by (auto simp: react_def handleSubmit_settled_def Let_def
               split: option.splits)
  qed
  from a b d react_selection_in_range show ?thesis by blast
qed

text \<open>
  A result with three frames arrives (index 0) and the third thumbnail is clicked
  (index 2, within the three frames).
\<close>

theorem selection_always_in_range_witness:
  "frames (cells (run None [PickFile (Some clip), Submit, Settled (Ok (Parsed framed_result)),
       SelectThumbnail 2])) = three_frames
   \<and> selectedVisualization (cells (run None [PickFile (Some clip), Submit,
       Settled (Ok (Parsed framed_result)), SelectThumbnail 2])) = 2
   \<and> selection_in_range (cells (run None [PickFile (Some clip), Submit,
       Settled (Ok (Parsed framed_result)), SelectThumbnail 2]))
   \<and> selectedVisualization (cells (run None [PickFile (Some clip), Submit,
       Settled (Ok (Parsed framed_result))])) = 0"
  using selection_always_in_range
    [where c = "run None [PickFile (Some clip), Submit, Settled (Ok (Parsed framed_result))]"
       and env = None and e = "SelectThumbnail 2" and es = "[PickFile (Some clip), Submit]"
       and data = framed_result]
  by (simp add: trace_defs selection_in_range_def)

subsection \<open>Selecting a file\<close>

text \<open>
  C7, as stated, asks that selecting a video file always lead to Ready.  While a request
  is in flight the drop zone and the picker stay on the page; a video file selected then
  replaces the held file, but the workflow stays Submitting: \<open>loading\<close> is still
  set and submitting does nothing.
\<close>

theorem selection_while_submitting_counterexample:
  "startsWith (file_type other_clip) ''video/''
   \<and> file' (cells (run None [PickFile (Some clip), Submit, PickFile (Some other_clip)]))
       = Some other_clip
   \<and> workflow (cells (run None [PickFile (Some clip), Submit, PickFile (Some other_clip)]))
       = Submitting
   \<and> workflow (cells (run None [PickFile (Some clip), Submit, PickFile (Some other_clip)]))
       \<noteq> Ready
   \<and> loading (cells (run None [PickFile (Some clip), Submit, PickFile (Some other_clip)]))
   \<and> react None Submit (run None [PickFile (Some clip), Submit, PickFile (Some other_clip)])
       = run None [PickFile (Some clip), Submit, PickFile (Some other_clip)]"
  by (simp add: trace_defs workflow_def)

text \<open>
  C7, amended.  Selecting a file whose type begins with \<open>video/\<close>, through the picker
  or by a drop, sets the file cell to that file and clears the error and the result
  (a drop also clears the drag flag); nothing else changes.  The workflow is then Ready,
  unless a request is in flight: then it is Submitting, with the new file held.
\<close>

theorem video_selection_accepts_file:
  assumes "startsWith (file_type f) ''video/''"
  shows "fst (handleFileSelect (Some f) s) = s\<lparr>file' := Some f, error := None, result := None\<rparr>
         \<and> fst (handleDrop (f # fs) s)
             = s\<lparr>dragActive := False, file' := Some f, error := None, result := None\<rparr>
         \<and> workflow (fst (handleFileSelect (Some f) s))
             = (if loading s then Submitting else Ready)
         \<and> workflow (fst (handleDrop (f # fs) s))
             = (if loading s then Submitting else Ready)"
  using assms by (simp add: handleFileSelect_def handleDrop_def workflow_def)

text \<open>A picture is refused, then a clip is picked or dropped: the error is gone, Ready.\<close>

theorem video_selection_accepts_file_witness:
  "startsWith (file_type clip) ''video/''
   \<and> cells (run None [PickFile (Some picture), PickFile (Some clip)])
       = initial_state\<lparr>file' := Some clip\<rparr>
   \<and> workflow (cells (run None [PickFile (Some picture), PickFile (Some clip)])) = Ready
   \<and> workflow (cells (run None [PickFile (Some picture), Drop [clip]])) = Ready"
proof -
  have 1: "startsWith (file_type clip) ''video/''"
    by (simp add: startsWith_def clip_def)
  show ?thesis
    using video_selection_accepts_file [OF 1,
      where s = "cells (run None [PickFile (Some picture)])" and fs = "[]"]
    by (simp add: trace_defs workflow_def)
qed

text \<open>
  C8.  Selecting no file, or a file whose type does not begin with \<open>video/\<close>, sets
  the validation error and nothing else: the held file and the result are as before,
  and the workflow is not Ready when no file was held.  The same through a drop, which
  also clears the drag flag.
\<close>

theorem invalid_selection_only_sets_error:
  assumes "selectedFile = None
           \<or> (\<exists>f. selectedFile = Some f \<and> \<not> startsWith (file_type f) ''video/'')"
  shows "handleFileSelect selectedFile s
           = (s\<lparr>error := Some ''Please select a valid video file''\<rparr>, None)
         \<and> file' (fst (handleFileSelect selectedFile s)) = file' s
         \<and> result (fst (handleFileSelect selectedFile s)) = result s
         \<and> (file' s = None \<longrightarrow> workflow (fst (handleFileSelect selectedFile s)) \<noteq> Ready)
         \<and> (\<forall>f fs. selectedFile = Some f \<longrightarrow>
               handleDrop (f # fs) s
                 = (s\<lparr>dragActive := False, error := Some ''Please select a valid video file''\<rparr>,
                    None))"
  using assms by (auto simp: handleFileSelect_def handleDrop_def workflow_def)

text \<open>
  A picture picked after a clip leaves the clip in place; a picture or nothing picked
  first leaves no file, and the workflow is not Ready.
\<close>

theorem invalid_selection_only_sets_error_witness:
  "\<not> startsWith (file_type picture) ''video/''
   \<and> cells (run None [PickFile (Some clip), PickFile (Some picture)])
       = initial_state\<lparr>file' := Some clip, error := Some ''Please select a valid video file''\<rparr>
   \<and> cells (run None [PickFile (Some picture)])
       = initial_state\<lparr>error := Some ''Please select a valid video file''\<rparr>
   \<and> workflow (cells (run None [PickFile (Some picture)])) \<noteq> Ready
   \<and> cells (run None [PickFile None])
       = initial_state\<lparr>error := Some ''Please select a valid video file''\<rparr>"
proof -
  have 1: "Some picture = None
           \<or> (\<exists>f. Some picture = Some f \<and> \<not> startsWith (file_type f) ''video/'')"
    by (simp add: startsWith_def picture_def)
  show ?thesis
    using invalid_selection_only_sets_error [OF 1, where s = initial_state]
      invalid_selection_only_sets_error [OF 1, where s = "cells (run None [PickFile (Some clip)])"]
    by (simp add: trace_defs workflow_def)
qed

subsection \<open>Presentation\<close>

text \<open>
  C9.  The three known predictions have their own colours, backgrounds and headlines,
  all different from one another and from those of any other prediction; any other
  prediction gets the default colour and background and an empty headline.  A result
  with such a prediction is stored like any other and sets no error.
\<close>

theorem presentation_is_total:
  "getResultColor ''REAL'' = ''from-green-400 to-emerald-400''
   \<and> getResultColor ''FAKE'' = ''from-red-400 to-rose-400''
   \<and> getResultColor ''SUSPICIOUS'' = ''from-yellow-400 to-orange-400''
   \<and> getResultBg ''REAL'' = ''bg-green-500/10 border-green-500/30''
   \<and> getResultBg ''FAKE'' = ''bg-red-500/10 border-red-500/30''
   \<and> getResultBg ''SUSPICIOUS'' = ''bg-yellow-500/10 border-yellow-500/30''
   \<and> headline ''REAL'' = [CHR 0xE2, CHR 0x9C, CHR 0x93] @ '' Content Verified''
   \<and> headline ''FAKE'' = [CHR 0xE2, CHR 0x9A, CHR 0xA0] @ '' Deepfake Detected''
   \<and> headline ''SUSPICIOUS'' = ''? Suspicious Content''
   \<and> distinct [getResultColor ''REAL'', getResultColor ''FAKE'',
                getResultColor ''SUSPICIOUS'', getResultColor p]
   \<and> distinct [getResultBg ''REAL'', getResultBg ''FAKE'', getResultBg ''SUSPICIOUS'',
                getResultBg p]
   \<and> distinct [headline ''REAL'', headline ''FAKE'', headline ''SUSPICIOUS'', headline p]
   \<and> getResultColor p = ''from-cyan-400 to-purple-400''
   \<and> getResultBg p = ''bg-white/5 border-white/10''
   \<and> headline p = []
   \<and> result (handleSubmit_settled (Ok (Parsed (data\<lparr>prediction := p\<rparr>))) s)
       = Some (data\<lparr>prediction := p\<rparr>)
   \<and> error (handleSubmit_settled (Ok (Parsed (data\<lparr>prediction := p\<rparr>))) s) = error s"
  if "p \<notin> {''REAL'', ''FAKE'', ''SUSPICIOUS''}"
  using that
  by (simp add: getResultColor_def getResultBg_def headline_def handleSubmit_settled_def
        Let_def split: option.splits)

text \<open>The prediction \<open>UNKNOWN\<close>: default presentation, and the workflow is Resulted.\<close>

theorem presentation_is_total_witness:
  "getResultColor ''UNKNOWN'' = ''from-cyan-400 to-purple-400''
   \<and> getResultBg ''UNKNOWN'' = ''bg-white/5 border-white/10''
   \<and> headline ''UNKNOWN'' = []
   \<and> getResultColor ''FAKE'' \<noteq> getResultColor ''UNKNOWN''
   \<and> workflow (cells (run None [PickFile (Some clip), Submit,
        Settled (Ok (Parsed (plain_result\<lparr>prediction := ''UNKNOWN''\<rparr>)))])) = Resulted"
proof -
  have 1: "''UNKNOWN'' \<notin> {''REAL'', ''FAKE'', ''SUSPICIOUS''}" by simp
  show ?thesis
    using presentation_is_total [OF 1, where data = plain_result
      and s = "cells (run None [PickFile (Some clip), Submit])"]
    by (simp add: trace_defs workflow_def)
qed

subsection \<open>The confidence as a percentage\<close>

lemma round_half_even_error: "\<bar>of_int (round_half_even y) - y\<bar> \<le> 1 / 2"
proof -
  have "of_int \<lfloor>y\<rfloor> \<le> y" "y < of_int \<lfloor>y\<rfloor> + 1" by linarith+
  then show ?thesis
    by (auto simp: round_half_even_def Let_def)
qed

lemma round_half_even_unique:
  assumes "\<bar>y - of_int k\<bar> < 1 / 2"
  shows "round_half_even y = k"
proof -
  have "\<bar>of_int (round_half_even y) - y\<bar> \<le> 1 / 2" by (rule round_half_even_error)
  with assms have "\<bar>(of_int (round_half_even y) :: rat) - of_int k\<bar> < 1" by linarith
  then have "\<bar>(of_int (round_half_even y - k) :: rat)\<bar> < 1" by simp
  then have "\<bar>round_half_even y - k\<bar> < 1"
    by (metis of_int_abs of_int_less_1_iff)
  then show ?thesis by linarith
qed

lemma round_half_even_le:
  assumes "y \<le> of_int k"
  shows "round_half_even y \<le> k"
proof -
  have f: "\<lfloor>y\<rfloor> \<le> k" using assms by (simp add: floor_le_iff) 
  show ?thesis
  proof (cases "\<lfloor>y\<rfloor> = k")
    case True
    then have "y = of_int k" using assms by (metis floor_le_iff le_floor_iff order_antisym of_int_floor_le)
    then show ?thesis by (simp add: round_half_even_def)
  next
    case False
    with f have "\<lfloor>y\<rfloor> + 1 \<le> k" by simp
    then show ?thesis using f by (auto simp: round_half_even_def Let_def)
  qed
qed

lemma round_half_even_ge:
  assumes "of_int k \<le> y"
  shows "k \<le> round_half_even y"
proof -
  have "k \<le> \<lfloor>y\<rfloor>" using assms by (simp add: le_floor_iff)
  then show ?thesis by (auto simp: round_half_even_def Let_def)
qed

lemma powi_two_half: "(2::rat) powi (e - 1) = 2 powi e / 2"
  by (simp add: power_int_diff)

lemma powi_two_double: "(2::rat) powi (e + 1) = 2 powi e * 2"
  by (simp add: power_int_add)

lemma ilog2_bounds: "0 < a \<Longrightarrow> 2 powi ilog2 a \<le> a \<and> a < 2 powi (ilog2 a + 1)"
proof (induction a rule: ilog2.induct)
  case (1 a)
  show ?case
  proof (cases "2 \<le> a")
    case True
    with 1 have "2 powi ilog2 (a / 2) \<le> a / 2 \<and> a / 2 < 2 powi (ilog2 (a / 2) + 1)"
      by simp
    moreover have "ilog2 a = ilog2 (a / 2) + 1"
      using True 1 by (subst ilog2.simps) simp
    ultimately show ?thesis
      using powi_two_double [of "ilog2 (a / 2)"] powi_two_double [of "ilog2 (a / 2) + 1"]
      by (simp only:) linarith
  next
    case False
    show ?thesis
    proof (cases "a < 1")
      case True
      with 1 False have "2 powi ilog2 (a * 2) \<le> a * 2 \<and> a * 2 < 2 powi (ilog2 (a * 2) + 1)"
        by simp
      moreover have "ilog2 a = ilog2 (a * 2) - 1"
        using True False 1 by (subst ilog2.simps) simp
      moreover have "ilog2 (a * 2) - 1 + 1 = ilog2 (a * 2)" by simp
      ultimately show ?thesis
        using powi_two_double [of "ilog2 (a * 2)"] powi_two_half [of "ilog2 (a * 2)"]
        by (simp only:) linarith
    next
      case f2: False
      have "ilog2 a = 0" using False f2 1 by (subst ilog2.simps) simp
      then show ?thesis using False f2 by simp
    qed
  qed
qed

lemma powi_two_less_imp:
  fixes i j :: int
  assumes "(2::rat) powi i < 2 powi j"
  shows "i < j"
proof (rule ccontr)
  assume "\<not> i < j"
  then have "(2::rat) powi j \<le> 2 powi i"
    by (intro power_int_increasing) simp_all
  with assms show False by simp
qed

lemma ilog2_unique:
  assumes "0 < a" and "2 powi e \<le> a" and "a < 2 powi (e + 1)"
  shows "ilog2 a = e"
proof -
  from ilog2_bounds [OF assms(1)]
  have 1: "(2::rat) powi ilog2 a < 2 powi (e + 1)" and 2: "(2::rat) powi e < 2 powi (ilog2 a + 1)"
    using assms by linarith+
  have "ilog2 a < e + 1" using 1 by (rule powi_two_less_imp)
  moreover have "e < ilog2 a + 1" using 2 by (rule powi_two_less_imp)
  ultimately show ?thesis by simp
qed

lemma ilog2_le:
  assumes "0 < a" and "a < 2 powi (e + 1)"
  shows "ilog2 a \<le> e"
proof -
  from ilog2_bounds [OF assms(1)]
  have "(2::rat) powi ilog2 a < 2 powi (e + 1)" using assms by linarith
  then have "ilog2 a < e + 1" by (rule powi_two_less_imp)
  then show ?thesis by simp
qed


lemma digits_small: "n < 10 \<Longrightarrow> digits n = [digit_char n]"
  by (subst digits.simps) simp

lemma digits_large: "10 \<le> n \<Longrightarrow> digits n = digits (n div 10) @ [digit_char (n mod 10)]"
  by (subst digits.simps) simp

lemma digits_not_empty: "digits n \<noteq> []"
  by (cases "n < 10") (simp_all add: digits_small digits_large)

lemma toFixed_one:
  assumes "0 \<le> p" and "p < 10 ^ 21"
  shows "toFixed 1 p =
           Some (digits (nat \<lfloor>p * 10 + 1 / 2\<rfloor> div 10) @ ''.''
                 @ [digit_char (nat \<lfloor>p * 10 + 1 / 2\<rfloor> mod 10)])"
proof (cases "nat \<lfloor>p * 10 + 1 / 2\<rfloor> < 10")
  case True
  then have "digits (nat \<lfloor>p * 10 + 1 / 2\<rfloor>) = [digit_char (nat \<lfloor>p * 10 + 1 / 2\<rfloor>)]"
    and "nat \<lfloor>p * 10 + 1 / 2\<rfloor> div 10 = 0"
    and "nat \<lfloor>p * 10 + 1 / 2\<rfloor> mod 10 = nat \<lfloor>p * 10 + 1 / 2\<rfloor>"
    by (simp_all add: digits_small)
  then show ?thesis
    using assms by (simp add: toFixed_def Let_def digits_small digit_char_def)
next
  case False
  then have d: "digits (nat \<lfloor>p * 10 + 1 / 2\<rfloor>) =
      digits (nat \<lfloor>p * 10 + 1 / 2\<rfloor> div 10) @ [digit_char (nat \<lfloor>p * 10 + 1 / 2\<rfloor> mod 10)]"
    by (simp add: digits_large)
  have "digits (nat \<lfloor>p * 10 + 1 / 2\<rfloor> div 10) \<noteq> []" by (rule digits_not_empty)
  then have "0 < length (digits (nat \<lfloor>p * 10 + 1 / 2\<rfloor> div 10))" by simp
  then show ?thesis
    using assms by (simp add: toFixed_def Let_def d)
qed

lemma powi_two_cancel:
  assumes "q \<le> 0"
  shows "(2::rat) powi q * 2 ^ nat (- q) = 1"
proof -
  have "(2::rat) ^ nat (- q) = 2 powi (- q)"
    using assms by (simp add: power_int_nonneg_exp)
  then show ?thesis by (simp add: power_int_minus)
qed

lemma round_to_double_upto_100:
  assumes "0 \<le> x" and "x \<le> 100"
  shows "\<exists>p. round_to_double x = Some p \<and> 0 \<le> p \<and> p \<le> 100 \<and> \<bar>p - x\<bar> \<le> 1 / 2 ^ 47"
proof (cases "x = 0")
  case True
  then show ?thesis by (simp add: round_to_double_def)
next
  case False
  with assms have pos: "0 < x" by simp
  define q where "q = max (ilog2 x) (- 1022) - 52"
  define u :: rat where "u = 2 powi q"
  define m where "m = round_half_even (x / u)"
  have "x < 2 powi (6 + 1)" using assms by simp
  with pos have "ilog2 x \<le> 6" by (rule ilog2_le)
  then have q: "q \<le> - 46" by (simp add: q_def)
  have u: "0 < u" by (simp add: u_def)
  have "u \<le> 2 powi (- 46)"
    unfolding u_def using q by (intro power_int_increasing) simp_all
  then have u46: "u \<le> 1 / 2 ^ 46" by (simp add: power_int_minus field_simps)
  have "\<bar>of_int m - x / u\<bar> \<le> 1 / 2" unfolding m_def by (rule round_half_even_error)
  then have "\<bar>of_int m - x / u\<bar> * u \<le> 1 / 2 * u"
    using u by (intro mult_right_mono) simp_all
  moreover have "(of_int m - x / u) * u = of_int m * u - x"
    using u by (simp add: field_simps)
  then have "\<bar>of_int m * u - x\<bar> = \<bar>of_int m - x / u\<bar> * \<bar>u\<bar>"
    by (simp only: abs_mult [symmetric])
  ultimately have "\<bar>of_int m * u - x\<bar> \<le> u / 2"
    using u by simp
  with u46 have err: "\<bar>of_int m * u - x\<bar> \<le> 1 / 2 ^ 47" by simp
  have "0 \<le> x / u" using pos u by simp
  then have "0 \<le> m" unfolding m_def using round_half_even_ge [of 0 "x / u"] by simp
  then have r0: "0 \<le> of_int m * u" using u by simp
  have c: "u * 2 ^ nat (- q) = 1"
    unfolding u_def using q by (intro powi_two_cancel) simp
  then have "u * of_int (100 * 2 ^ nat (- q)) = 100"
    by simp
  then have "100 / u = of_int (100 * 2 ^ nat (- q))"
    using u by (simp add: field_simps)
  moreover have "x / u \<le> 100 / u" using assms u by (simp add: divide_right_mono)
  ultimately have "m \<le> 100 * 2 ^ nat (- q)"
    unfolding m_def by (intro round_half_even_le) simp
  then have "(of_int m :: rat) \<le> of_int (100 * 2 ^ nat (- q))" by (simp only: of_int_le_iff)
  then have "of_int m * u \<le> of_int (100 * 2 ^ nat (- q)) * u"
    using u by (intro mult_right_mono) simp_all
  also have "\<dots> = 100" using c by (simp add: mult.commute)
  finally have r100: "of_int m * u \<le> 100" .
  have "(100::rat) < 2 ^ 1024" by simp
  with r100 have "\<not> 2 ^ 1024 \<le> of_int m * u" by linarith
  then have "round_to_double x = Some (of_int m * u)"
    using pos by (simp add: round_to_double_def Let_def q_def u_def m_def)
  with r0 r100 err show ?thesis by simp
qed


lemma round_to_double_eval:
  assumes "0 < x" and "2 powi e \<le> x" and "x < 2 powi (e + 1)" and "- 1022 \<le> e"
    and "\<bar>x / 2 powi (e - 52) - of_int m\<bar> < 1 / 2"
    and "(of_int m :: rat) * 2 powi (e - 52) < 2 ^ 1024"
  shows "round_to_double x = Some (of_int m * 2 powi (e - 52))"
proof -
  have "ilog2 x = e" using assms(1-3) by (rule ilog2_unique)
  then have q: "max (ilog2 x) (- 1022) - 52 = e - 52" using assms(4) by simp
  have m: "round_half_even (x / 2 powi (e - 52)) = m"
    using assms(5) by (rule round_half_even_unique)
  have a: "\<bar>x\<bar> = x" "sgn x = 1" "x \<noteq> 0" using assms(1) by simp_all
  have r: "\<not> 2 ^ 1024 \<le> (of_int m :: rat) * 2 powi (e - 52)"
    using assms(6) by (simp only: not_le)
  show ?thesis
    unfolding round_to_double_def Let_def a q m using a(3) r
    by (simp only: if_False mult_1)
qed

lemma double_09847: "round_to_double (9847 / 10000) = Some (8869389106143455 / 2 ^ 53)"
  using round_to_double_eval [of "9847 / 10000" "- 1" 8869389106143455]
  by (simp add: power_int_minus)

lemma product_09847:
  "fmul (8869389106143455 / 2 ^ 53) 100 = Some (3464605119587287 / 2 ^ 45)"
  using round_to_double_eval [of "8869389106143455 / 2 ^ 53 * 100" 6 6929210239174574]
  by (simp add: fmul_def power_int_minus)

lemma text_09847: "confidence_text (8869389106143455 / 2 ^ 53) = Some ''98.5%''"
proof -
  have "\<lfloor>(3464605119587287 / 2 ^ 45 :: rat) * 10 + 1 / 2\<rfloor> = 985"
    by (rule floor_unique) simp_all
  then have "toFixed 1 (3464605119587287 / 2 ^ 45) = Some ''98.5''"
    using toFixed_one [of "3464605119587287 / 2 ^ 45"]
    by (simp add: digits_large [of 98] digits_small digit_char_def)
  then show ?thesis
    unfolding confidence_text_def product_09847 by simp
qed

lemma nearest_binary64_unique:
  assumes "nearest_binary64 x p" and "nearest_binary64 x p'"
  shows "p' = p"
proof (rule ccontr)
  assume ne: "p' \<noteq> p"
  from assms have b: "binary64 p" "binary64 p'" by (simp_all add: nearest_binary64_def)
  from assms b have "\<bar>p - x\<bar> \<le> \<bar>p' - x\<bar>" "\<bar>p' - x\<bar> \<le> \<bar>p - x\<bar>"
    by (simp_all add: nearest_binary64_def)
  then have eq: "\<bar>p' - x\<bar> = \<bar>p - x\<bar>" by simp
  from assms(1) b(2) eq ne obtain k where k: "p = of_int (2 * k) * (p' - p)"
    unfolding nearest_binary64_def by blast
  from assms(2) b(1) eq ne obtain k' where k': "p' = of_int (2 * k') * (p - p')"
    unfolding nearest_binary64_def by (metis)
  have "p' - p = (of_int (2 * k') * (p - p')) - of_int (2 * k) * (p' - p)"
    using k k' by simp
  also have "\<dots> = - of_int (2 * (k' + k)) * (p' - p)"
    by (simp add: algebra_simps)
  finally have "(1 + of_int (2 * (k' + k))) * (p' - p) = 0"
    by (simp add: algebra_simps)
  with ne have "(1::rat) + of_int (2 * (k' + k)) = 0" by simp
  then have "(of_int (1 + 2 * (k' + k)) :: rat) = of_int 0" by simp
  then have "1 + 2 * (k' + k) = 0" by (simp only: of_int_eq_iff)
  then show False by presburger
qed

lemma round_half_even_nearest:
  "\<bar>of_int (round_half_even y) - y\<bar> \<le> \<bar>of_int k - y\<bar>"
proof (cases "\<bar>y - of_int k\<bar> < 1 / 2")
  case True
  then have "round_half_even y = k" by (rule round_half_even_unique)
  then show ?thesis by simp
next
  case False
  with round_half_even_error [of y] show ?thesis by linarith
qed

lemma round_half_even_tie:
  assumes "\<bar>of_int (round_half_even y) - y\<bar> = 1 / 2"
  shows "even (round_half_even y)"
proof -
  have "of_int \<lfloor>y\<rfloor> \<le> y" "y < of_int \<lfloor>y\<rfloor> + 1" by linarith+
  with assms show ?thesis
    by (auto simp: round_half_even_def Let_def split: if_splits)
qed

lemma powi_two_split:
  assumes "q \<le> q'"
  shows "(2::rat) powi q' = of_int (2 ^ nat (q' - q)) * 2 powi q"
proof -
  have "(2::rat) powi q' = 2 powi ((q' - q) + q)" by simp
  also have "\<dots> = 2 powi (q' - q) * 2 powi q" by (rule power_int_add) simp
  also have "(2::rat) powi (q' - q) = 2 ^ nat (q' - q)"
    using assms by (simp add: power_int_nonneg_exp)
  finally show ?thesis by simp
qed

lemma powi_two_mono: "a \<le> b \<Longrightarrow> (2::rat) powi a \<le> 2 powi b"
  by (rule power_int_increasing) simp_all

lemma round_to_double_nearest:
  assumes "0 \<le> x" and "x \<le> 100"
  shows "\<exists>p. round_to_double x = Some p \<and> nearest_binary64 x p"
proof (cases "x = 0")
  case True
  have "binary64 0"
    unfolding binary64_def by (rule exI [of _ 0], rule exI [of _ 0]) simp
  then have "nearest_binary64 0 0"
    by (auto simp: nearest_binary64_def)
  with True show ?thesis by (simp add: round_to_double_def)
next
  case False
  with assms have pos: "0 < x" by simp
  define e where "e = ilog2 x"
  define q where "q = max e (- 1022) - 52"
  define u :: rat where "u = 2 powi q"
  define y where "y = x / u"
  define m where "m = round_half_even y"
  have eb: "2 powi e \<le> x" "x < 2 powi (e + 1)"
    using ilog2_bounds [OF pos] by (simp_all add: e_def)
  have "x < 2 powi (6 + 1)" using assms by simp
  with pos have e6: "e \<le> 6" unfolding e_def by (rule ilog2_le)
  then have q46: "q \<le> - 46" by (simp add: q_def)
  have q1074: "- 1074 \<le> q" by (simp add: q_def)
  have qe: "e - 52 \<le> q" by (simp add: q_def)
  have u: "0 < u" by (simp add: u_def)
  have xy: "x = y * u" using u by (simp add: y_def)
  have grid: "\<bar>of_int k * u - x\<bar> = \<bar>of_int k - y\<bar> * u" for k
  proof -
    have "of_int k * u - x = (of_int k - y) * u" by (simp add: xy algebra_simps)
    then show ?thesis using u by (simp add: abs_mult)
  qed
  have near: "\<bar>of_int m * u - x\<bar> \<le> \<bar>of_int k * u - x\<bar>" for k
    unfolding grid m_def using u round_half_even_nearest [of y k]
    by (intro mult_right_mono) simp_all
  \<comment> \<open>the significand stays within 53 bits\<close>
  have "x < 2 powi (q + 53)"
  proof -
    have "(2::rat) powi (e + 1) \<le> 2 powi (q + 53)"
      using qe by (intro powi_two_mono) simp
    with eb(2) show ?thesis by simp
  qed
  also have "(2::rat) powi (q + 53) = of_int (2 ^ 53) * u"
    unfolding u_def using powi_two_split [of q "q + 53"] by simp
  finally have "y < of_int (2 ^ 53)"
    using u by (simp add: y_def field_simps)
  then have "y \<le> of_int (2 ^ 53)" by simp
  then have m53: "m \<le> 2 ^ 53" unfolding m_def by (rule round_half_even_le)
  have "of_int 0 \<le> y" using pos u by (simp add: y_def)
  then have m0: "0 \<le> m" unfolding m_def by (rule round_half_even_ge)
  \<comment> \<open>the result is a binary64 value\<close>
  have b64: "binary64 (of_int m * u)"
  proof (cases "m = 2 ^ 53")
    case True
    have "(2::rat) powi (q + 1) = of_int 2 * 2 powi q"
      using powi_two_split [of q "q + 1"] by simp
    then have "of_int m * u = of_int (2 ^ 52) * 2 powi (q + 1)"
      by (simp add: True u_def)
    moreover have "\<bar>2 ^ 52 :: int\<bar> < 2 ^ 53" "- 1074 \<le> q + 1" "q + 1 \<le> 971"
      using q46 q1074 by simp_all
    ultimately show ?thesis unfolding binary64_def by blast
  next
    case False
    with m53 m0 have "\<bar>m\<bar> < 2 ^ 53" by simp
    moreover have "q \<le> 971" using q46 by simp
    ultimately show ?thesis unfolding binary64_def u_def using q1074 by blast
  qed
  \<comment> \<open>no binary64 value is nearer, and one that is as near lies on the same grid\<close>
  have cmp: "\<bar>of_int m * u - x\<bar> \<le> \<bar>d - x\<bar>
             \<and> (\<bar>d - x\<bar> = \<bar>of_int m * u - x\<bar> \<longrightarrow> (\<exists>k. d = of_int k * u))"
    if "binary64 d" for d
  proof -
    from that obtain m' q' where d: "\<bar>m'\<bar> < 2 ^ 53" "- 1074 \<le> q'" "d = of_int m' * 2 powi q'"
      unfolding binary64_def by blast
    show ?thesis
    proof (cases "q \<le> q'")
      case True
      have "d = of_int (m' * 2 ^ nat (q' - q)) * u"
        unfolding d(3) u_def using powi_two_split [OF True] by simp
      then show ?thesis using near by metis
    next
      case False
      then have q'1: "q' \<le> q - 1" by simp
      with d(2) have "max e (- 1022) = e" by (simp add: q_def)
      then have qeq: "q = e - 52" by (simp add: q_def)
      have "\<bar>d\<bar> = of_int \<bar>m'\<bar> * 2 powi q'"
        by (simp add: d(3) abs_mult)
      also have "\<dots> \<le> of_int \<bar>m'\<bar> * 2 powi (q - 1)"
        using q'1 by (intro mult_left_mono powi_two_mono) simp_all
      also have "\<dots> < of_int (2 ^ 53) * 2 powi (q - 1)"
        using d(1) by (intro mult_strict_right_mono) (simp_all only: of_int_less_iff, simp)
      also have "\<dots> = 2 powi e"
        using powi_two_split [of "q - 1" e] by (simp add: qeq)
      finally have dlt: "\<bar>d\<bar> < 2 powi e" .
      have g: "(2::rat) powi e = of_int (2 ^ 52) * u"
        unfolding u_def using powi_two_split [of q e] by (simp add: qeq)
      have "\<bar>of_int m * u - x\<bar> \<le> \<bar>of_int (2 ^ 52) * u - x\<bar>" by (rule near)
      also have "\<dots> = x - 2 powi e" unfolding g [symmetric] using eb(1) by simp
      also have "\<dots> < \<bar>d - x\<bar>" using dlt by linarith
      finally show ?thesis by simp
    qed
  qed
  have tie: "\<exists>k. of_int m * u = of_int (2 * k) * (d - of_int m * u)"
    if "binary64 d" "\<bar>d - x\<bar> = \<bar>of_int m * u - x\<bar>" "d \<noteq> of_int m * u" for d
  proof -
    from cmp [OF that(1)] that(2) obtain k where k: "d = of_int k * u" by blast
    with that(3) have km: "k \<noteq> m" by auto
    from that(2) have eq: "\<bar>of_int k - y\<bar> = \<bar>of_int m - y\<bar>"
      unfolding k grid using u by simp
    have half: "\<bar>of_int m - y\<bar> \<le> 1 / 2" unfolding m_def by (rule round_half_even_error)
    have "\<not> \<bar>y - of_int k\<bar> < 1 / 2"
      using round_half_even_unique [of y k] km by (auto simp: m_def)
    with eq half have exact: "\<bar>of_int m - y\<bar> = 1 / 2" by linarith
    then have "even m" unfolding m_def by (rule round_half_even_tie)
    then obtain j where j: "m = 2 * j" by (auto elim: evenE)
    have "\<bar>(of_int k :: rat) - of_int m\<bar> \<le> 1" using eq exact by linarith
    then have "\<bar>(of_int (k - m) :: rat)\<bar> \<le> 1" by simp
    then have "\<bar>k - m\<bar> \<le> 1" by (metis of_int_abs of_int_le_1_iff)
    with km have "k - m = 1 \<or> k - m = - 1" by linarith
    then have sq: "(k - m) * (k - m) = 1" by auto
    have "of_int (2 * (j * (k - m))) * (d - of_int m * u)
          = of_int (2 * j) * (of_int ((k - m) * (k - m)) * u)"
      by (simp add: k algebra_simps)
    also have "\<dots> = of_int m * u" unfolding sq by (simp add: j)
    finally show ?thesis by metis
  qed
  have "nearest_binary64 x (of_int m * u)"
    unfolding nearest_binary64_def using b64 cmp tie by blast
  moreover have "round_to_double x = Some (of_int m * u)"
  proof -
    have "of_int m * u \<le> of_int (2 ^ 53) * 2 powi (- 46)"
      unfolding u_def using m53 m0 q46
      by (intro mult_mono powi_two_mono) simp_all
    also have "\<dots> < 2 ^ 1024" by (simp add: power_int_minus field_simps)
    finally have "\<not> 2 ^ 1024 \<le> of_int m * u" by simp
    then show ?thesis
      using pos by (simp add: round_to_double_def Let_def q_def u_def m_def y_def e_def)
  qed
  ultimately show ?thesis by blast
qed

lemma digit_cases:
  assumes "d < (10::nat)"
  shows "d = 0 \<or> d = 1 \<or> d = 2 \<or> d = 3 \<or> d = 4 \<or> d = 5 \<or> d = 6 \<or> d = 7 \<or> d = 8 \<or> d = 9"
  using assms by arith

lemma decimal_numeral_digit: "d < 10 \<Longrightarrow> decimal_numeral [digit_char d] d"
  by (drule digit_cases) (auto simp: decimal_numeral_def decimal_value_def digit_char_def)

lemma decimal_numeral_snoc:
  assumes "decimal_numeral s k" and "k \<noteq> 0" and "d < 10"
  shows "decimal_numeral (s @ [digit_char d]) (10 * k + d)"
proof -
  from assms(1) have s: "s \<noteq> []" "set s \<subseteq> set ''0123456789''" "decimal_value s = k"
    and z: "hd s = CHR ''0'' \<longrightarrow> s = ''0''"
    by (simp_all add: decimal_numeral_def)
  have "hd s \<noteq> CHR ''0''"
  proof
    assume "hd s = CHR ''0''"
    with z have "s = ''0''" by simp
    with s(3) have "k = 0" by (simp add: decimal_value_def)
    with assms(2) show False by simp
  qed
  moreover have "decimal_value (s @ [digit_char d]) = 10 * k + d
                 \<and> digit_char d \<in> set ''0123456789''"
    using digit_cases [OF assms(3)] s(3)
    by (auto simp: decimal_value_def digit_char_def)
  ultimately show ?thesis
    using s(1,2) by (simp add: decimal_numeral_def)
qed

lemma decimal_numeral_digits: "decimal_numeral (digits n) n"
proof (induction n rule: digits.induct)
  case (1 n)
  show ?case
  proof (cases "n < 10")
    case True
    then show ?thesis by (simp add: digits_small decimal_numeral_digit)
  next
    case False
    then have "decimal_numeral (digits (n div 10)) (n div 10)" by (rule 1)
    moreover have "n div 10 \<noteq> 0" using False by simp
    moreover have "n mod 10 < 10" by simp
    ultimately have "decimal_numeral (digits (n div 10) @ [digit_char (n mod 10)])
                       (10 * (n div 10) + n mod 10)"
      by (rule decimal_numeral_snoc)
    then show ?thesis using False by (simp add: digits_large)
  qed
qed

lemma double_00015: "round_to_double (15 / 10000) = Some (3458764513820541 / 2 ^ 61)"
  using round_to_double_eval [of "15 / 10000" "- 10" 6917529027641082]
  by (simp add: power_int_minus)

lemma product_00015:
  "fmul (3458764513820541 / 2 ^ 61) 100 = Some (5404319552844595 / 2 ^ 55)"
  using round_to_double_eval [of "3458764513820541 / 2 ^ 61 * 100" "- 3" 5404319552844595]
  by (simp add: fmul_def power_int_minus)

lemma text_00015: "confidence_text (3458764513820541 / 2 ^ 61) = Some ''0.1%''"
proof -
  have "\<lfloor>(5404319552844595 / 2 ^ 55 :: rat) * 10 + 1 / 2\<rfloor> = 1"
    by (rule floor_unique) simp_all
  then have "toFixed 1 (5404319552844595 / 2 ^ 55) = Some ''0.1''"
    using toFixed_one [of "5404319552844595 / 2 ^ 55"]
    by (simp add: digits_small digit_char_def)
  then show ?thesis
    unfolding confidence_text_def product_00015 by simp
qed

lemma digit_char_of_char:
  assumes "ch \<in> set ''0123456789''"
  shows "of_char ch - 48 < (10::nat) \<and> digit_char (of_char ch - 48) = ch"
  using assms by (auto simp: digit_char_def)

lemma decimal_numeral_unique: "decimal_numeral s k \<Longrightarrow> s = digits k"
proof (induction s arbitrary: k rule: rev_induct)
  case Nil
  then show ?case by (simp add: decimal_numeral_def)
next
  case (snoc ch s0)
  from snoc.prems have ch: "ch \<in> set ''0123456789''" and s0: "set s0 \<subseteq> set ''0123456789''"
    and z: "hd (s0 @ [ch]) = CHR ''0'' \<longrightarrow> s0 @ [ch] = ''0''"
    and v: "decimal_value (s0 @ [ch]) = k"
    by (simp_all add: decimal_numeral_def)
  define d :: nat where "d = of_char ch - 48"
  have d: "d < 10" "digit_char d = ch"
    unfolding d_def using digit_char_of_char [OF ch] by (simp_all only:)
  have k: "k = 10 * decimal_value s0 + d"
    using v by (simp add: decimal_value_def d_def)
  show ?case
  proof (cases "s0 = []")
    case True
    then have "k = d" using k by (simp add: decimal_value_def)
    then show ?thesis using True d by (simp add: digits_small)
  next
    case False
    then have "hd (s0 @ [ch]) = hd s0" by simp
    with z False have h: "hd s0 \<noteq> CHR ''0''" by auto
    with False s0 have "decimal_numeral s0 (decimal_value s0)"
      by (simp add: decimal_numeral_def)
    then have eq: "s0 = digits (decimal_value s0)" by (rule snoc.IH)
    have "decimal_value s0 \<noteq> 0"
    proof
      assume "decimal_value s0 = 0"
      with eq have "s0 = digits 0" by (simp only:)
      then have "s0 = ''0''" by (simp add: digits_small digit_char_def)
      with h show False by simp
    qed
    then have "10 \<le> k" "k div 10 = decimal_value s0" "k mod 10 = d"
      using k d(1) by simp_all
    then have "digits k = digits (decimal_value s0) @ [digit_char d]"
      by (simp add: digits_large)
    with eq d(2) show ?thesis by simp
  qed
qed

text \<open>
  C6, as stated, asks for the value times 100 to one decimal place.  The JSON number
  \<open>0.0015\<close> is the double \<open>3458764513820541 / 2\<^sup>6\<^sup>1\<close>, a confidence between 0 and
  1; a hundred times its value lies above \<open>0.15\<close>, nearer to \<open>0.2\<close> than to
  \<open>0.1\<close>, but the floating-point product lies below \<open>0.15\<close> and the text is
  \<open>0.1%\<close>.
\<close>

theorem exact_tenth_counterexample:
  "round_to_double (15 / 10000) = Some (3458764513820541 / 2 ^ 61)
   \<and> (0::rat) \<le> 3458764513820541 / 2 ^ 61 \<and> (3458764513820541 / 2 ^ 61 :: rat) \<le> 1
   \<and> confidence_text (3458764513820541 / 2 ^ 61) = Some ''0.1%''
   \<and> \<bar>(3458764513820541 / 2 ^ 61 :: rat) * 100 - 2 / 10\<bar>
       < \<bar>(3458764513820541 / 2 ^ 61 :: rat) * 100 - 1 / 10\<bar>"
  using double_00015 text_00015 by simp

text \<open>
  C6, amended.  For a confidence \<open>c\<close> between 0 and 1 the rendered text is the
  floating-point product \<open>c * 100\<close> to one decimal place: with \<open>p\<close> the one binary64
  value nearest to the exact product, ties to even (off the exact product by
  \<open>2\<^sup>-\<^sup>4\<^sup>7\<close> at most), and \<open>n\<close> the number of tenths nearest to \<open>p\<close>, the larger of
  two, the text is the decimal numeral of \<open>n div 10\<close>, a point, the one digit of
  \<open>n mod 10\<close> and the percent sign; there is one such \<open>p\<close> and one numeral of
  each number, so this is the text and no other.  The JSON number \<open>0.9847\<close> is the double
  \<open>8869389106143455 / 2\<^sup>5\<^sup>3\<close>, and it is rendered as \<open>98.5%\<close>.
\<close>

theorem confidence_text_one_decimal:
  assumes "0 \<le> c" and "c \<le> 1"
  shows "(\<exists>p n ip d.
            nearest_binary64 (c * 100) p
            \<and> (\<forall>p'. nearest_binary64 (c * 100) p' \<longrightarrow> p' = p)
            \<and> \<bar>p - c * 100\<bar> \<le> 1 / 2 ^ 47
            \<and> int n = \<lfloor>p * 10 + 1 / 2\<rfloor>
            \<and> decimal_numeral ip (n div 10) \<and> decimal_numeral [d] (n mod 10)
            \<and> (\<forall>s. decimal_numeral s (n div 10) \<longrightarrow> s = ip)
            \<and> (\<forall>s. decimal_numeral s (n mod 10) \<longrightarrow> s = [d])
            \<and> confidence_text c = Some (ip @ ''.'' @ [d] @ ''%''))
         \<and> nearest_binary64 (9847 / 10000) (8869389106143455 / 2 ^ 53)
         \<and> confidence_text (8869389106143455 / 2 ^ 53) = Some ''98.5%''"
proof -
  have x: "0 \<le> c * 100" "c * 100 \<le> 100" using assms by simp_all
  then obtain p where p: "round_to_double (c * 100) = Some p" "0 \<le> p" "p \<le> 100"
    "\<bar>p - c * 100\<bar> \<le> 1 / 2 ^ 47"
    using round_to_double_upto_100 by blast
  from x obtain p0 where "round_to_double (c * 100) = Some p0" "nearest_binary64 (c * 100) p0"
    using round_to_double_nearest by blast
  with p(1) have np: "nearest_binary64 (c * 100) p" by simp
  then have uniq: "\<forall>p'. nearest_binary64 (c * 100) p' \<longrightarrow> p' = p"
    using nearest_binary64_unique by blast
  define n where "n = nat \<lfloor>p * 10 + 1 / 2\<rfloor>"
  have "0 \<le> \<lfloor>p * 10 + 1 / 2\<rfloor>" using p(2) by simp
  then have n: "int n = \<lfloor>p * 10 + 1 / 2\<rfloor>" by (simp add: n_def)
  have "p < 10 ^ 21" using p(3) by simp
  with p(2) have "toFixed 1 p = Some (digits (n div 10) @ ''.'' @ [digit_char (n mod 10)])"
    unfolding n_def by (rule toFixed_one)
  then have shown: "confidence_text c
             = Some (digits (n div 10) @ ''.'' @ [digit_char (n mod 10)] @ ''%'')"
    by (simp add: confidence_text_def fmul_def p(1))
  have d1: "decimal_numeral (digits (n div 10)) (n div 10)" by (rule decimal_numeral_digits)
  have d2: "decimal_numeral [digit_char (n mod 10)] (n mod 10)"
    by (rule decimal_numeral_digit) simp
  have u1: "\<forall>s. decimal_numeral s (n div 10) \<longrightarrow> s = digits (n div 10)"
    using decimal_numeral_unique by blast
  have "digits (n mod 10) = [digit_char (n mod 10)]" by (simp add: digits_small)
  then have u2: "\<forall>s. decimal_numeral s (n mod 10) \<longrightarrow> s = [digit_char (n mod 10)]"
    using decimal_numeral_unique by metis
  from np uniq p(4) n d1 d2 u1 u2 shown
  have "\<exists>p n ip d.
            nearest_binary64 (c * 100) p
            \<and> (\<forall>p'. nearest_binary64 (c * 100) p' \<longrightarrow> p' = p)
            \<and> \<bar>p - c * 100\<bar> \<le> 1 / 2 ^ 47
            \<and> int n = \<lfloor>p * 10 + 1 / 2\<rfloor>
            \<and> decimal_numeral ip (n div 10) \<and> decimal_numeral [d] (n mod 10)
            \<and> (\<forall>s. decimal_numeral s (n div 10) \<longrightarrow> s = ip)
            \<and> (\<forall>s. decimal_numeral s (n mod 10) \<longrightarrow> s = [d])
            \<and> confidence_text c = Some (ip @ ''.'' @ [d] @ ''%'')"
    by blast
  moreover have "nearest_binary64 (9847 / 10000) (8869389106143455 / 2 ^ 53)"
  proof -
    have "(0::rat) \<le> 9847 / 10000" "(9847 / 10000 :: rat) \<le> 100" by simp_all
    then obtain q where q: "round_to_double (9847 / 10000) = Some q"
      "nearest_binary64 (9847 / 10000) q"
      using round_to_double_nearest by blast
    from q(1) have "q = 8869389106143455 / 2 ^ 53"
      unfolding double_09847 by (simp only: option.inject)
    with q(2) show ?thesis by (simp only:)
  qed
  ultimately show ?thesis using text_09847 by blast
qed

text \<open>The confidence 0.9847.\<close>

theorem confidence_text_one_decimal_witness:
  "(0::rat) \<le> 8869389106143455 / 2 ^ 53 \<and> (8869389106143455 / 2 ^ 53 :: rat) \<le> 1
   \<and> confidence_text (8869389106143455 / 2 ^ 53) = Some ''98.5%''"
proof -
  have 1: "(0::rat) \<le> 8869389106143455 / 2 ^ 53" by simp
  have 2: "(8869389106143455 / 2 ^ 53 :: rat) \<le> 1" by simp
  show ?thesis
    using confidence_text_one_decimal [OF 1 2] by simp
qed

subsection \<open>The duplicate component\<close>

text \<open>
  C10, as stated, asks for the same error message in both components after every
  response without frames.  A success response whose body is \<open>null\<close> brings no
  frames; the canonical component throws on reading \<open>data.gradcam_frames\<close> and shows
  the message of that error, the duplicate reads nothing of \<open>data\<close> and shows none.
\<close>

theorem null_result_body_counterexample:
  "response_frames (Ok (Null ''data is null'')) = []
   \<and> error (handleSubmit_settled (Ok (Null ''data is null''))
        (cells (run None [PickFile (Some clip), Submit]))) = Some ''data is null''
   \<and> error (handleSubmit_settled_dup (Ok (Null ''data is null''))
        (upload_cells.truncate (cells (run None [PickFile (Some clip), Submit])))) = None"
  by (simp add: trace_defs response_frames_def handleSubmit_settled_dup_def
        upload_cells.truncate_def)

text \<open>
  C10, amended.  Forgetting the selection cell turns each handler of the canonical
  component into the handler of the duplicate: the same cells after a selection (and
  the same file read started), the same cells after a submission and the same request
  but for the query flag appended to the URL.  For a response without frames the
  result cell is the same after it has settled and the selection of the canonical
  component is untouched; all the other cells, the error among them, are the same as
  well, unless the response is a success with the body \<open>null\<close>: then the canonical
  component alone sets the error, to the message of the \<open>TypeError\<close> (or to the
  generic text about the backend when that message is empty).
\<close>

theorem duplicate_agrees_with_canonical:
  assumes "response_frames out = []"
  shows "handleFileSelect_dup selectedFile (upload_cells.truncate s)
           = (upload_cells.truncate (fst (handleFileSelect selectedFile s)),
              snd (handleFileSelect selectedFile s))
         \<and> handleDrop_dup files (upload_cells.truncate s)
           = (upload_cells.truncate (fst (handleDrop files s)), snd (handleDrop files s))
         \<and> fst (handleSubmit_dup env (upload_cells.truncate s))
           = upload_cells.truncate (fst (handleSubmit env s))
         \<and> map_option (\<lambda>r. r\<lparr>url := url r @ ''?include_gradcam=true''\<rparr>)
             (snd (handleSubmit_dup env (upload_cells.truncate s)))
           = snd (handleSubmit env s)
         \<and> result (handleSubmit_settled_dup out (upload_cells.truncate s))
           = result (handleSubmit_settled out s)
         \<and> selectedVisualization (handleSubmit_settled out s) = selectedVisualization s
         \<and> upload_cells.truncate (handleSubmit_settled out s)
           = (case out of
                Ok (Null m) \<Rightarrow>
                  (handleSubmit_settled_dup out (upload_cells.truncate s))
                    \<lparr>error := Some (if m = []
                       then ''Error analyzing video. Make sure the backend is running.''
                       else m)\<rparr>
              | _ \<Rightarrow> handleSubmit_settled_dup out (upload_cells.truncate s))"
  using assms
  by (auto simp: handleFileSelect_dup_def handleFileSelect_def handleDrop_dup_def
        handleDrop_def handleSubmit_dup_def handleSubmit_def handleSubmit_settled_dup_def
        handleSubmit_settled_def handleSubmit_caught_def handleSubmit_caught_dup_def
        response_frames_def upload_cells.truncate_def Let_def
      split: option.splits list.splits fetch_outcome.splits json_body.splits)

text \<open>A result without frames, settled in both components.\<close>

theorem duplicate_agrees_with_canonical_witness:
  "response_frames (Ok (Parsed plain_result)) = []
   \<and> result (handleSubmit_settled_dup (Ok (Parsed plain_result))
        (upload_cells.truncate (cells (run None [PickFile (Some clip), Submit]))))
      = Some plain_result
   \<and> upload_cells.truncate (cells (run None [PickFile (Some clip), Submit,
        Settled (Ok (Parsed plain_result))]))
      = handleSubmit_settled_dup (Ok (Parsed plain_result))
          (upload_cells.truncate (cells (run None [PickFile (Some clip), Submit])))"
proof -
  have 1: "response_frames (Ok (Parsed plain_result)) = []"
    by (simp add: response_frames_def plain_result_def)
  show ?thesis
    using duplicate_agrees_with_canonical [OF 1,
      where s = "cells (run None [PickFile (Some clip), Submit])"]
    by (simp add: trace_defs handleSubmit_settled_dup_def upload_cells.truncate_def
          response_frames_def)
qed

end
